theory Spec2Isabelle
  imports Complex_Main "HOL-Library.AList"
begin

section \<open>JavaScript values\<close>

text \<open>
  The values that cross the boundary between the widgets and the host model are JSON-like.
  Numbers are only stored and forwarded by the code modelled here, never computed on.
  An object is the list of its own keys with their values, first entry of a key first.
\<close>

datatype JsValue =
    JUndefined
  | JNull
  | JBool bool
  | JNum real
  | JStr string
  | JArr "JsValue list"
  | JObj "(string \<times> JsValue) list"

datatype JsError =
    TypeError
  | HostError string

text \<open>
  A step of the program either completes or throws. Both carry the state reached: a throw in
  the middle of a loop keeps the mutations made before it.
\<close>

datatype 's outcome =
    Done 's
  | Threw JsError 's

definition and_then :: "'s outcome \<Rightarrow> ('s \<Rightarrow> 's outcome) \<Rightarrow> 's outcome" where
  "and_then r f = (case r of Done s \<Rightarrow> f s | Threw e s \<Rightarrow> Threw e s)"

definition state_of :: "'s outcome \<Rightarrow> 's" where
  "state_of r = (case r of Done s \<Rightarrow> s | Threw e s \<Rightarrow> s)"

definition completed :: "'s outcome \<Rightarrow> bool" where
  "completed r = (case r of Done s \<Rightarrow> True | Threw e s \<Rightarrow> False)"

text \<open>Truthiness, as \<^verbatim>\<open>if (v)\<close> tests it.\<close>

fun truthy :: "JsValue \<Rightarrow> bool" where
  "truthy JUndefined = False"
| "truthy JNull = False"
| "truthy (JBool b) = b"
| "truthy (JNum x) = (x \<noteq> 0)"
| "truthy (JStr s) = (s \<noteq> [])"
| "truthy (JArr xs) = True"
| "truthy (JObj kvs) = True"

text \<open>
  Property access \<^verbatim>\<open>v.k\<close> for a key \<open>k\<close> that no prototype defines (the keys read by
  the code are \<^verbatim>\<open>bandstats\<close>, \<^verbatim>\<open>stretch\<close>, \<^verbatim>\<open>min\<close>, \<^verbatim>\<open>max\<close>, \<^verbatim>\<open>palette\<close>,
  \<^verbatim>\<open>colormap\<close>, \<^verbatim>\<open>classes\<close>): a TypeError on \<^verbatim>\<open>undefined\<close> and \<^verbatim>\<open>null\<close>,
  the own property of an object, \<^verbatim>\<open>undefined\<close> otherwise.
\<close>

fun get_prop :: "JsValue \<Rightarrow> string \<Rightarrow> JsError + JsValue" where
  "get_prop JUndefined k = Inl TypeError"
| "get_prop JNull k = Inl TypeError"
| "get_prop (JObj kvs) k = Inr (case map_of kvs k of None \<Rightarrow> JUndefined | Some v \<Rightarrow> v)"
| "get_prop v k = Inr JUndefined"

text \<open>
  The operator \<^verbatim>\<open>k in v\<close>, for the same kind of key: a TypeError when \<open>v\<close> is not an
  object, otherwise whether the key is present (whatever its value).
\<close>

fun js_in :: "string \<Rightarrow> JsValue \<Rightarrow> JsError + bool" where
  "js_in k (JObj kvs) = Inr (k \<in> fst ` set kvs)"
| "js_in k (JArr xs) = Inr False"
| "js_in k v = Inl TypeError"

section \<open>The inspector tree: \<^verbatim>\<open>TreeNode\<close>\<close>

text \<open>
  \<^verbatim>\<open>interface Node { label?: string; children?: Array<Node>; expanded?: boolean; topLevel?: boolean }\<close>.
  The code tells a missing \<^verbatim>\<open>expanded\<close> key (\<^verbatim>\<open>'expanded' in this.node\<close>) from a
  key whose value is \<^verbatim>\<open>null\<close> or \<^verbatim>\<open>undefined\<close> (\<^verbatim>\<open>?? false\<close>), so the optional
  flag has three cases.
\<close>

datatype OptFlag =
    Absent
  | Nullish
  | Present bool

datatype Node =
  Node (label: "string option") (children: "Node list option")
       (node_expanded: OptFlag) (topLevel: "bool option")

text \<open>
  The component: its two reactive properties. \<^verbatim>\<open>node\<close> is \<open>None\<close> when a falsy value
  was bound to it (the guard \<^verbatim>\<open>&& this.node\<close> of \<^verbatim>\<open>updated\<close>). Every child of a rendered
  node is a component of its own, with its own \<^verbatim>\<open>expanded\<close> property.
\<close>

record TreeNode =
  node :: "Node option"
  expanded :: bool

text \<open>
  \<^verbatim>\<open>updated(changedProperties)\<close>; of the map \<^verbatim>\<open>changedProperties\<close> the code reads the
  keys only, so the batch is the list of the changed property names.
\<close>

definition TreeNode_updated :: "string list \<Rightarrow> TreeNode \<Rightarrow> TreeNode" where
  "TreeNode_updated changedProperties t =
     (if ''node'' \<in> set changedProperties \<and> node t \<noteq> None then
        (case node t of
           None \<Rightarrow> t
         | Some n \<Rightarrow>
             (case node_expanded n of
                Absent \<Rightarrow> t
              | Nullish \<Rightarrow> t\<lparr>expanded := False\<rparr>
              | Present b \<Rightarrow> t\<lparr>expanded := b\<rparr>))
      else t)"

definition toggleExpand :: "TreeNode \<Rightarrow> TreeNode" where
  "toggleExpand t = t\<lparr>expanded := \<not> expanded t\<rparr>"

text \<open>
  Replacing the backing data: the parent binds a new object to \<^verbatim>\<open>.node\<close>; the new object
  is not the old one, so the property is reported as changed and \<^verbatim>\<open>updated\<close> runs with
  \<^verbatim>\<open>node\<close> in its batch.
\<close>

definition replace_node :: "Node \<Rightarrow> TreeNode \<Rightarrow> TreeNode" where
  "replace_node new t = TreeNode_updated [''node''] (t\<lparr>node := Some new\<rparr>)"

subsection \<open>The rendered tree\<close>

text \<open>
  A new \<^verbatim>\<open>tree-node\<close> element has the initial values of its property declarations:
  \<^verbatim>\<open>node = {}\<close> and \<^verbatim>\<open>expanded = false\<close>.
\<close>

definition TreeNode_new :: TreeNode where
  "TreeNode_new = \<lparr>node = Some (Node None None Absent None), expanded = False\<rparr>"

text \<open>
  \<^verbatim>\<open>hasChildren\<close>: \<^verbatim>\<open>(this.node.children?.length ?? 0) > 0\<close>. (With a falsy \<^verbatim>\<open>node\<close>,
  \<^verbatim>\<open>render\<close> throws before it comes to the children; nothing is rendered.)
\<close>

definition hasChildren :: "TreeNode \<Rightarrow> bool" where
  "hasChildren t =
     (case node t of
        None \<Rightarrow> False
      | Some n \<Rightarrow> (case children n of None \<Rightarrow> False | Some cs \<Rightarrow> length cs > 0))"

text \<open>
  A rendered \<^verbatim>\<open>tree-node\<close> element: the component, and the child \<^verbatim>\<open>tree-node\<close> elements
  that its render root holds. \<^verbatim>\<open>renderChild\<close> makes one child element per child of the
  data and binds the child's data to its \<^verbatim>\<open>.node\<close>: the new element takes its flag from
  the data (\<^verbatim>\<open>updated\<close>) and renders its own children if that leaves it expanded.
\<close>

datatype TreeEl = TreeEl (self: TreeNode) (rendered: "TreeEl list")

primrec create_element :: "Node \<Rightarrow> TreeEl" where
  "create_element (Node l cs e t) =
     TreeEl (replace_node (Node l cs e t) TreeNode_new)
       (if expanded (replace_node (Node l cs e t) TreeNode_new)
        then (case map_option (map create_element) cs of None \<Rightarrow> [] | Some els \<Rightarrow> els)
        else [])"

text \<open>
  \<^verbatim>\<open>renderChildren\<close>, for a component whose render root holds no child element: the
  list of one new child element per child of the data when the component is expanded and
  has children, \<^verbatim>\<open>nothing\<close> otherwise.
\<close>

definition renderChildren :: "TreeNode \<Rightarrow> TreeEl list" where
  "renderChildren t =
     (if expanded t \<and> hasChildren t then
        (case node t of
           None \<Rightarrow> []
         | Some n \<Rightarrow> (case children n of None \<Rightarrow> [] | Some cs \<Rightarrow> map create_element cs))
      else [])"

text \<open>
  A click on the row of a node runs \<^verbatim>\<open>toggleExpand\<close> of that component, and the component
  renders again: collapsed, its template has \<^verbatim>\<open>nothing\<close> in the place of the children, and
  the child elements are gone; expanded, the children are rendered, into a place that held
  none. A click on the row of the \<open>i\<close>-th child element reaches that child only.
\<close>

definition click_node :: "TreeEl \<Rightarrow> TreeEl" where
  "click_node el = TreeEl (toggleExpand (self el)) (renderChildren (toggleExpand (self el)))"

definition click_child :: "nat \<Rightarrow> TreeEl \<Rightarrow> TreeEl" where
  "click_child i el =
     (if i < length (rendered el)
      then TreeEl (self el) ((rendered el)[i := click_node (rendered el ! i)])
      else el)"

text \<open>An inspected point: the top node is expanded by its data, its child is not.\<close>

definition point_data :: Node where
  "point_data =
     Node (Some ''Point'')
       (Some [Node (Some ''lat'') (Some [Node (Some ''37.4'') None Absent None]) Absent None])
       (Present True) (Some True)"

section \<open>The host model: \<^verbatim>\<open>AnyModel\<close>\<close>

text \<open>
  The model object belongs to the host runtime. The widgets use \<^verbatim>\<open>get\<close>, \<^verbatim>\<open>set\<close>,
  \<^verbatim>\<open>on\<close>, \<^verbatim>\<open>save_changes\<close> and \<^verbatim>\<open>send\<close>. The model here holds the attribute values,
  the registered listeners in registration order, and the log of the calls that stage or
  transmit something (\<^verbatim>\<open>set\<close>, \<^verbatim>\<open>save_changes\<close>, \<^verbatim>\<open>send\<close>), in call order. \<open>raising\<close>
  lists the fields on which \<^verbatim>\<open>get\<close> and \<^verbatim>\<open>set\<close> raise (a model in teardown, an unknown
  field); it is empty for a healthy model.

  A listener is one of the two arrow functions the widgets register, with the variables it
  closes over.
\<close>

datatype Callback =
    SyncProperty string string
  | OnCustomMessage

datatype Call =
    Set string JsValue
  | SaveChanges
  | Send JsValue

record AnyModel =
  attributes :: "(string \<times> JsValue) list"
  listeners :: "(string \<times> Callback) list"
  calls :: "Call list"
  raising :: "string list"

definition model_get :: "AnyModel \<Rightarrow> string \<Rightarrow> JsError + JsValue" where
  "model_get m k =
     (if k \<in> set (raising m) then Inl (HostError k)
      else Inr (case map_of (attributes m) k of None \<Rightarrow> JUndefined | Some v \<Rightarrow> v))"

definition model_set :: "string \<Rightarrow> JsValue \<Rightarrow> AnyModel \<Rightarrow> JsError + AnyModel" where
  "model_set k v m =
     (if k \<in> set (raising m) then Inl (HostError k)
      else Inr (m\<lparr>attributes := AList.update k v (attributes m), calls := calls m @ [Set k v]\<rparr>))"

definition model_on :: "string \<Rightarrow> Callback \<Rightarrow> AnyModel \<Rightarrow> AnyModel" where
  "model_on event cb m = m\<lparr>listeners := listeners m @ [(event, cb)]\<rparr>"

definition save_changes :: "AnyModel \<Rightarrow> AnyModel" where
  "save_changes m = m\<lparr>calls := calls m @ [SaveChanges]\<rparr>"

definition model_send :: "JsValue \<Rightarrow> AnyModel \<Rightarrow> AnyModel" where
  "model_send msg m = m\<lparr>calls := calls m @ [Send msg]\<rparr>"

definition callbacks_for :: "string \<Rightarrow> AnyModel \<Rightarrow> Callback list" where
  "callbacks_for event m = map snd (filter (\<lambda>l. fst l = event) (listeners m))"

section \<open>A widget bound to the model\<close>

text \<open>
  The part that \<^verbatim>\<open>Inspector\<close>, \<^verbatim>\<open>LayerEditor\<close> and \<^verbatim>\<open>Container\<close> share: the private
  \<^verbatim>\<open>_model\<close> (set or undefined; there is one model object in the world), the reactive
  properties by name, and the names of the properties changed since the last update cycle
  (the keys of the framework's \<^verbatim>\<open>changedProperties\<close> map, in insertion order).
\<close>

record Widget =
  has_model :: bool
  props :: "(string \<times> JsValue) list"
  changedProperties :: "string list"

record 'v World =
  model :: AnyModel
  view :: 'v

definition read_prop :: "'a Widget_scheme \<Rightarrow> string \<Rightarrow> JsValue" where
  "read_prop w k = (case map_of (props w) k of None \<Rightarrow> JUndefined | Some v \<Rightarrow> v)"

text \<open>
  The framework's change test is \<^verbatim>\<open>!==\<close> (with NaN equal to itself). Values are compared
  by structure here: that is exact for primitives; two objects are compared by identity in
  JavaScript, and two objects of different structure are never the same object.
\<close>

definition notEqual :: "JsValue \<Rightarrow> JsValue \<Rightarrow> bool" where
  "notEqual v old = (v \<noteq> old)"

text \<open>
  An assignment \<^verbatim>\<open>this[k] = v\<close> to a reactive property: the value is stored, and the
  property is entered into the pending batch when the value changed and the property is not
  in the batch yet.
\<close>

definition write_prop :: "string \<Rightarrow> JsValue \<Rightarrow> 'a Widget_scheme \<Rightarrow> 'a Widget_scheme" where
  "write_prop k v w =
     w\<lparr>props := AList.update k v (props w),
       changedProperties :=
         (if notEqual v (read_prop w k) \<and> k \<notin> set (changedProperties w)
          then changedProperties w @ [k] else changedProperties w)\<rparr>"

subsection \<open>\<^verbatim>\<open>set model\<close>\<close>

text \<open>
  The loop of \<^verbatim>\<open>set model\<close> over the entries of \<^verbatim>\<open>modelNameToViewName\<close>. A view name is
  \<open>None\<close> for \<^verbatim>\<open>null\<close>; \<^verbatim>\<open>if (widgetKey)\<close> is false for \<^verbatim>\<open>null\<close> and for the empty string.
  (The loop of \<^verbatim>\<open>Container\<close> has no such test, and its table no such entry.)
\<close>

fun set_model_loop ::
  "(string \<times> string option) list \<Rightarrow> 'a Widget_scheme World \<Rightarrow> 'a Widget_scheme World outcome"
where
  "set_model_loop [] s = Done s"
| "set_model_loop ((modelKey, widgetKey) # rest) s =
     (case widgetKey of
        None \<Rightarrow> set_model_loop rest s
      | Some wk \<Rightarrow>
          if wk = [] then set_model_loop rest s
          else
            (case model_get (model s) modelKey of
               Inl e \<Rightarrow> Threw e s
             | Inr v \<Rightarrow>
                 set_model_loop rest
                   (s\<lparr>view := write_prop wk v (view s),
                      model := model_on (''change:'' @ modelKey) (SyncProperty modelKey wk) (model s)\<rparr>)))"

definition set_model ::
  "(string \<times> string option) list \<Rightarrow> 'a Widget_scheme World \<Rightarrow> 'a Widget_scheme World outcome"
where
  "set_model modelNameToViewName s =
     set_model_loop modelNameToViewName (s\<lparr>view := (view s)\<lparr>has_model := True\<rparr>\<rparr>)"

subsection \<open>\<^verbatim>\<open>updated\<close>\<close>

text \<open>
  The loop of \<^verbatim>\<open>updated\<close> over the batch, then \<^verbatim>\<open>this._model?.save_changes()\<close>. The table
  \<^verbatim>\<open>viewNameToModelName\<close> is a parameter. With \<^verbatim>\<open>_model\<close> undefined, \<^verbatim>\<open>?.\<close> skips the call.
\<close>

fun updated_loop ::
  "(string \<times> string) list \<Rightarrow> string list \<Rightarrow> 'a Widget_scheme World \<Rightarrow> 'a Widget_scheme World outcome"
where
  "updated_loop viewNameToModelName [] s = Done s"
| "updated_loop viewNameToModelName (viewProp # rest) s =
     (case map_of viewNameToModelName viewProp of
        None \<Rightarrow> updated_loop viewNameToModelName rest s
      | Some modelProp \<Rightarrow>
          if has_model (view s) then
            (case model_set modelProp (read_prop (view s) viewProp) (model s) of
               Inl e \<Rightarrow> Threw e s
             | Inr m \<Rightarrow> updated_loop viewNameToModelName rest (s\<lparr>model := m\<rparr>))
          else updated_loop viewNameToModelName rest s)"

definition updated ::
  "(string \<times> string) list \<Rightarrow> string list \<Rightarrow> 'a Widget_scheme World \<Rightarrow> 'a Widget_scheme World outcome"
where
  "updated viewNameToModelName batch s =
     and_then (updated_loop viewNameToModelName batch s)
       (\<lambda>s'. Done (if has_model (view s') then s'\<lparr>model := save_changes (model s')\<rparr> else s'))"

text \<open>
  One update cycle of the framework: the pending batch is taken and reset, and
  \<^verbatim>\<open>updated\<close> runs on it.
\<close>

definition perform_update ::
  "(string \<times> string) list \<Rightarrow> 'a Widget_scheme World \<Rightarrow> 'a Widget_scheme World outcome"
where
  "perform_update viewNameToModelName s =
     updated viewNameToModelName (changedProperties (view s))
       (s\<lparr>view := (view s)\<lparr>changedProperties := []\<rparr>\<rparr>)"

subsection \<open>A change of a remote field\<close>

text \<open>
  The listener registered by \<^verbatim>\<open>set model\<close>:
  \<^verbatim>\<open>() => { this[widgetKey] = model.get(modelKey); }\<close>. The other listener is registered
  for \<^verbatim>\<open>msg:custom\<close> only and takes a message; a change event does not reach it.
\<close>

fun run_callback :: "Callback \<Rightarrow> 'a Widget_scheme World \<Rightarrow> 'a Widget_scheme World outcome" where
  "run_callback (SyncProperty modelKey wk) s =
     (case model_get (model s) modelKey of
        Inl e \<Rightarrow> Threw e s
      | Inr v \<Rightarrow> Done (s\<lparr>view := write_prop wk v (view s)\<rparr>))"
| "run_callback OnCustomMessage s = Done s"

fun fire :: "Callback list \<Rightarrow> 'a Widget_scheme World \<Rightarrow> 'a Widget_scheme World outcome" where
  "fire [] s = Done s"
| "fire (cb # cbs) s = and_then (run_callback cb s) (fire cbs)"

text \<open>
  The host changes field \<open>k\<close> to \<open>v\<close> and fires \<^verbatim>\<open>change:k\<close>: the listeners of the event
  run in registration order.
\<close>

definition remote_change :: "string \<Rightarrow> JsValue \<Rightarrow> 'a Widget_scheme World \<Rightarrow> 'a Widget_scheme World outcome" where
  "remote_change k v s =
     fire (callbacks_for (''change:'' @ k) (model s))
       (s\<lparr>model := (model s)\<lparr>attributes := AList.update k v (attributes (model s))\<rparr>\<rparr>)"

subsection \<open>The key maps\<close>

text \<open>
  Modelled from the spec: \<^verbatim>\<open>reverseMap\<close> of \<^verbatim>\<open>./utils\<close>, which is not among the
  sources. The inverse of a key map sends each non-null local property to its remote
  field; its construction fails when two remote fields map to the same non-null local
  property (\<open>None\<close>).
\<close>

definition inverse_entries :: "(string \<times> string option) list \<Rightarrow> (string \<times> string) list" where
  "inverse_entries m = concat (map (\<lambda>(k, w). case w of None \<Rightarrow> [] | Some wk \<Rightarrow> [(wk, k)]) m)"

definition reverseMap :: "(string \<times> string option) list \<Rightarrow> (string \<times> string) list option" where
  "reverseMap m =
     (if distinct (map fst (inverse_entries m)) then Some (inverse_entries m) else None)"

text \<open>
  The static tables of \<^verbatim>\<open>Inspector\<close> and \<^verbatim>\<open>LayerEditor\<close>. The construction of their
  inverses succeeds.
\<close>

definition Inspector_modelNameToViewName :: "(string \<times> string option) list" where
  "Inspector_modelNameToViewName =
     [(''hide_close_button'', Some ''hideCloseButton''),
      (''expand_points'', Some ''expandPoints''),
      (''expand_pixels'', Some ''expandPixels''),
      (''expand_objects'', Some ''expandObjects''),
      (''point_info'', Some ''pointInfo''),
      (''pixel_info'', Some ''pixelInfo''),
      (''object_info'', Some ''objectInfo'')]"

definition Inspector_viewNameToModelName :: "(string \<times> string) list" where
  "Inspector_viewNameToModelName =
     (case reverseMap Inspector_modelNameToViewName of None \<Rightarrow> [] | Some table \<Rightarrow> table)"

definition LayerEditor_modelNameToViewName :: "(string \<times> string option) list" where
  "LayerEditor_modelNameToViewName =
     [(''title'', Some ''title''),
      (''type'', Some ''type''),
      (''band_names'', Some ''bandNames''),
      (''colormaps'', Some ''colormaps''),
      (''children'', None)]"

definition LayerEditor_viewNameToModelName :: "(string \<times> string) list" where
  "LayerEditor_viewNameToModelName =
     (case reverseMap LayerEditor_modelNameToViewName of None \<Rightarrow> [] | Some table \<Rightarrow> table)"

text \<open>
  A new \<^verbatim>\<open>Inspector\<close> element: the initialisers of its property declarations have
  assigned the initial values, so every property is in the pending batch of the first update
  cycle. And a model as the kernel could hold it.
\<close>

definition Inspector_new :: Widget where
  "Inspector_new =
     \<lparr>has_model = False,
      props =
        [(''hideCloseButton'', JBool False),
         (''expandPoints'', JBool False),
         (''expandPixels'', JBool True),
         (''expandObjects'', JBool False),
         (''pointInfo'', JObj []),
         (''pixelInfo'', JObj []),
         (''objectInfo'', JObj [])],
      changedProperties =
        [''hideCloseButton'', ''expandPoints'', ''expandPixels'', ''expandObjects'',
         ''pointInfo'', ''pixelInfo'', ''objectInfo'']\<rparr>"

definition example_model :: AnyModel where
  "example_model =
     \<lparr>attributes =
        [(''hide_close_button'', JBool True),
         (''expand_points'', JBool True),
         (''expand_pixels'', JBool False),
         (''expand_objects'', JBool False),
         (''point_info'', JObj [(''label'', JStr ''Point''), (''expanded'', JBool True)]),
         (''pixel_info'', JObj []),
         (''object_info'', JObj [])],
      listeners = [],
      calls = [],
      raising = []\<rparr>"

definition example_world :: "Widget World" where
  "example_world = \<lparr>model = example_model, view = Inspector_new\<rparr>"

section \<open>The layer editor\<close>

text \<open>
  Of \<^verbatim>\<open>RasterLayerEditor\<close>, the properties that the message code of \<^verbatim>\<open>LayerEditor\<close>
  reads and writes. \<^verbatim>\<open>minValue\<close> and \<^verbatim>\<open>maxValue\<close> are declared
  \<^verbatim>\<open>number | undefined\<close>, and are assigned whatever a reply carries. \<open>paletteEditor\<close> is
  the \<^verbatim>\<open>palette-editor\<close> element of the raster editor's render root, \<open>None\<close> when the
  query finds none.
\<close>

record PaletteEditor =
  palette :: JsValue

record RasterLayerEditor =
  selectedBands :: "string list"
  stretch :: string
  minValue :: JsValue
  maxValue :: JsValue
  paletteEditor :: "PaletteEditor option"

text \<open>
  \<^verbatim>\<open>LayerEditor\<close>: the bound widget and \<^verbatim>\<open>rasterEditor\<close>, the result of
  \<^verbatim>\<open>@query("#raster-layer-editor")\<close>, \<open>None\<close> before the editor has rendered. The handlers
  are those of the copy of the file that has the palette reply; the older copy looks the
  raster editor up with \<^verbatim>\<open>querySelector\<close>, without the guard, and has the same stretch test
  and the same two assignments.
\<close>

record LayerEditor = Widget +
  rasterEditor :: "RasterLayerEditor option"

definition handleBandstatsResponse :: "JsValue \<Rightarrow> LayerEditor World \<Rightarrow> LayerEditor World outcome" where
  "handleBandstatsResponse response s =
     (case rasterEditor (view s) of
        None \<Rightarrow> Done s
      | Some re \<Rightarrow>
          (case get_prop response ''bandstats'' of
             Inl e \<Rightarrow> Threw e s
           | Inr bandstats \<Rightarrow>
               (case get_prop bandstats ''stretch'' of
                  Inl e \<Rightarrow> Threw e s
                | Inr st \<Rightarrow>
                    if st = JStr (stretch re) then
                      (case get_prop bandstats ''min'' of
                         Inl e \<Rightarrow> Threw e s
                       | Inr mn \<Rightarrow>
                           (case get_prop bandstats ''max'' of
                              Inl e \<Rightarrow>
                                Threw e (s\<lparr>view := (view s)\<lparr>rasterEditor := Some (re\<lparr>minValue := mn\<rparr>)\<rparr>\<rparr>)
                            | Inr mx \<Rightarrow>
                                Done (s\<lparr>view := (view s)\<lparr>rasterEditor :=
                                        Some (re\<lparr>minValue := mn, maxValue := mx\<rparr>)\<rparr>\<rparr>)))
                    else Done s)))"

definition handlePaletteResponse :: "JsValue \<Rightarrow> LayerEditor World \<Rightarrow> LayerEditor World outcome" where
  "handlePaletteResponse response s =
     (case get_prop response ''palette'' of
        Inl e \<Rightarrow> Threw e s
      | Inr p \<Rightarrow>
          (case get_prop p ''palette'' of
             Inl e \<Rightarrow> Threw e s
           | Inr pp \<Rightarrow>
               if truthy pp then
                 (case rasterEditor (view s) of
                    None \<Rightarrow> Threw TypeError s
                  | Some re \<Rightarrow>
                      (case paletteEditor re of
                         None \<Rightarrow> Threw TypeError s
                       | Some pe \<Rightarrow>
                           Done (s\<lparr>view := (view s)\<lparr>rasterEditor :=
                                   Some (re\<lparr>paletteEditor := Some (pe\<lparr>palette := pp\<rparr>)\<rparr>)\<rparr>\<rparr>)))
               else Done s))"

text \<open>
  The listener of \<^verbatim>\<open>registerCustomMessageHandlers\<close>. Its two \<^verbatim>\<open>console.log\<close> calls
  write to the console only.
\<close>

definition on_custom_message :: "JsValue \<Rightarrow> LayerEditor World \<Rightarrow> LayerEditor World outcome" where
  "on_custom_message msg s =
     (case js_in ''bandstats'' msg of
        Inl e \<Rightarrow> Threw e s
      | Inr True \<Rightarrow> handleBandstatsResponse msg s
      | Inr False \<Rightarrow>
          (case js_in ''palette'' msg of
             Inl e \<Rightarrow> Threw e s
           | Inr True \<Rightarrow> handlePaletteResponse msg s
           | Inr False \<Rightarrow> Done s))"

definition registerCustomMessageHandlers :: "LayerEditor World \<Rightarrow> LayerEditor World" where
  "registerCustomMessageHandlers s =
     (if has_model (view s) then s\<lparr>model := model_on ''msg:custom'' OnCustomMessage (model s)\<rparr> else s)"

definition LayerEditor_set_model :: "LayerEditor World \<Rightarrow> LayerEditor World outcome" where
  "LayerEditor_set_model s =
     and_then (set_model LayerEditor_modelNameToViewName s) (\<lambda>s'. Done (registerCustomMessageHandlers s'))"

text \<open>
  The host delivers a custom message: every listener of \<^verbatim>\<open>msg:custom\<close> runs on it, in
  registration order.
\<close>

fun deliver :: "Callback list \<Rightarrow> JsValue \<Rightarrow> LayerEditor World \<Rightarrow> LayerEditor World outcome" where
  "deliver [] msg s = Done s"
| "deliver (OnCustomMessage # cbs) msg s = and_then (on_custom_message msg s) (deliver cbs msg)"
| "deliver (cb # cbs) msg s = and_then (run_callback cb s) (deliver cbs msg)"

definition custom_message :: "JsValue \<Rightarrow> LayerEditor World \<Rightarrow> LayerEditor World outcome" where
  "custom_message msg s = deliver (callbacks_for ''msg:custom'' (model s)) msg s"

subsection \<open>Outgoing commands\<close>

definition onCloseButtonClicked :: "'a Widget_scheme World \<Rightarrow> 'a Widget_scheme World" where
  "onCloseButtonClicked s =
     (if has_model (view s)
      then s\<lparr>model := model_send (JObj [(''type'', JStr ''click''), (''id'', JStr ''close'')]) (model s)\<rparr>
      else s)"

text \<open>
  \<^verbatim>\<open>this.rasterEditor?.selectedBands\<close> and \<^verbatim>\<open>this.rasterEditor?.stretch\<close> are
  \<^verbatim>\<open>undefined\<close> without a raster editor. The \<^verbatim>\<open>console.log\<close> calls of this handler and
  of the next write to the console only.
\<close>

definition calculateBandStats :: "LayerEditor World \<Rightarrow> LayerEditor World" where
  "calculateBandStats s =
     (if has_model (view s) then
        s\<lparr>model := model_send
             (JObj [(''type'', JStr ''calculate''),
                    (''id'', JStr ''band-stats''),
                    (''detail'',
                     JObj [(''bands'', case rasterEditor (view s) of
                                         None \<Rightarrow> JUndefined
                                       | Some re \<Rightarrow> JArr (map JStr (selectedBands re))),
                           (''stretch'', case rasterEditor (view s) of
                                           None \<Rightarrow> JUndefined
                                         | Some re \<Rightarrow> JStr (stretch re))])])
             (model s)\<rparr>
      else s)"

text \<open>
  \<^verbatim>\<open>onPaletteChanged(event)\<close>; \<open>detail\<close> is \<^verbatim>\<open>event.detail\<close>. With \<^verbatim>\<open>_model\<close> undefined
  the argument of \<^verbatim>\<open>send\<close> is not evaluated.
\<close>

definition onPaletteChanged :: "JsValue \<Rightarrow> LayerEditor World \<Rightarrow> LayerEditor World outcome" where
  "onPaletteChanged detail s =
     (if has_model (view s) then
        (case get_prop detail ''colormap'' of
           Inl e \<Rightarrow> Threw e s
         | Inr colormap \<Rightarrow>
             (case get_prop detail ''classes'' of
                Inl e \<Rightarrow> Threw e s
              | Inr classes \<Rightarrow>
                  (case get_prop detail ''palette'' of
                     Inl e \<Rightarrow> Threw e s
                   | Inr pal \<Rightarrow>
                       Done (s\<lparr>model := model_send
                               (JObj [(''type'', JStr ''calculate''),
                                      (''id'', JStr ''palette''),
                                      (''detail'',
                                       JObj [(''colormap'', colormap),
                                             (''classes'', classes),
                                             (''palette'', pal),
                                             (''bandMin'', case rasterEditor (view s) of
                                                             None \<Rightarrow> JUndefined
                                                           | Some re \<Rightarrow> minValue re),
                                             (''bandMax'', case rasterEditor (view s) of
                                                             None \<Rightarrow> JUndefined
                                                           | Some re \<Rightarrow> maxValue re)])])
                               (model s)\<rparr>))))
      else Done s)"

text \<open>
  The shape of a command, from the spec:
  \<^verbatim>\<open>{ type: <command-class-string>, id: <tag-string>, detail?: <payload> }\<close>.
\<close>

fun command_shape :: "JsValue \<Rightarrow> bool" where
  "command_shape (JObj [(k1, JStr ty), (k2, JStr tag)]) = (k1 = ''type'' \<and> k2 = ''id'')"
| "command_shape (JObj [(k1, JStr ty), (k2, JStr tag), (k3, detail)]) =
     (k1 = ''type'' \<and> k2 = ''id'' \<and> k3 = ''detail'')"
| "command_shape v = False"

text \<open>
  A new \<^verbatim>\<open>LayerEditor\<close> element beside its model, before \<^verbatim>\<open>set model\<close>; and the editor
  attached, rendered and past its first update cycle, with the first band selected and the
  stretch \<^verbatim>\<open>sigma-1\<close>.
\<close>

definition LayerEditor_new_world :: "LayerEditor World" where
  "LayerEditor_new_world =
     \<lparr>model =
        \<lparr>attributes =
           [(''title'', JStr ''Layer''),
            (''type'', JStr ''raster''),
            (''band_names'', JArr [JStr ''B1'', JStr ''B2'', JStr ''B3'']),
            (''colormaps'', JArr [JStr ''viridis''])],
         listeners = [],
         calls = [],
         raising = []\<rparr>,
      view =
        \<lparr>has_model = False,
         props =
           [(''title'', JStr []),
            (''type'', JStr []),
            (''bandNames'', JArr []),
            (''colormaps'', JArr [])],
         changedProperties = [''title'', ''type'', ''bandNames'', ''colormaps''],
         rasterEditor = None\<rparr>\<rparr>"

definition example_layer_world :: "LayerEditor World" where
  "example_layer_world =
     \<lparr>model =
        \<lparr>attributes =
           [(''title'', JStr ''Layer''),
            (''type'', JStr ''raster''),
            (''band_names'', JArr [JStr ''B1'', JStr ''B2'', JStr ''B3'']),
            (''colormaps'', JArr [JStr ''viridis''])],
         listeners =
           [(''change:title'', SyncProperty ''title'' ''title''),
            (''change:type'', SyncProperty ''type'' ''type''),
            (''change:band_names'', SyncProperty ''band_names'' ''bandNames''),
            (''change:colormaps'', SyncProperty ''colormaps'' ''colormaps''),
            (''msg:custom'', OnCustomMessage)],
         calls = [],
         raising = []\<rparr>,
      view =
        \<lparr>has_model = True,
         props =
           [(''title'', JStr ''Layer''),
            (''type'', JStr ''raster''),
            (''bandNames'', JArr [JStr ''B1'', JStr ''B2'', JStr ''B3'']),
            (''colormaps'', JArr [JStr ''viridis''])],
         changedProperties = [],
         rasterEditor =
           Some \<lparr>selectedBands = [''B1''], stretch = ''sigma-1'',
                 minValue = JUndefined, maxValue = JUndefined,
                 paletteEditor = Some \<lparr>palette = JArr []\<rparr>\<rparr>\<rparr>\<rparr>"

section \<open>Notions of the specification\<close>

text \<open>
  The \<^verbatim>\<open>set\<close> calls that the specification expects of one batch: for each changed
  property that the inverse key map knows, in batch order, one \<^verbatim>\<open>set\<close> of its remote field
  to the current value of the property.
\<close>

fun staged_sets :: "(string \<times> string) list \<Rightarrow> 'a Widget_scheme \<Rightarrow> string list \<Rightarrow> Call list" where
  "staged_sets v2m w [] = []"
| "staged_sets v2m w (p # batch) =
     (case map_of v2m p of None \<Rightarrow> [] | Some f \<Rightarrow> [Set f (read_prop w p)]) @ staged_sets v2m w batch"

text \<open>
  The subscriptions that one pass over a key map registers: one per entry with a local
  property.
\<close>

fun subscriptions_of :: "(string \<times> string option) list \<Rightarrow> (string \<times> Callback) list" where
  "subscriptions_of [] = []"
| "subscriptions_of ((k, w) # km) =
     (case w of
        None \<Rightarrow> []
      | Some wk \<Rightarrow> if wk = [] then [] else [(''change:'' @ k, SyncProperty k wk)])
     @ subscriptions_of km"

text \<open>
  The calls issued between two states; a remote change followed by the update cycle it
  schedules; two attachments in a row.
\<close>

definition new_calls :: "'a Widget_scheme World \<Rightarrow> 'a Widget_scheme World \<Rightarrow> Call list" where
  "new_calls s s' = drop (length (calls (model s))) (calls (model s'))"

definition remote_change_cycle ::
  "(string \<times> string) list \<Rightarrow> string \<Rightarrow> JsValue \<Rightarrow> 'a Widget_scheme World \<Rightarrow> 'a Widget_scheme World outcome"
where
  "remote_change_cycle v2m k v s = and_then (remote_change k v s) (perform_update v2m)"

definition attach_twice :: "(string \<times> string option) list \<Rightarrow> 'a Widget_scheme World \<Rightarrow> 'a Widget_scheme World outcome" where
  "attach_twice km s = and_then (set_model km s) (set_model km)"

text \<open>
  The example inspector after attachment and its first update cycle; the same model
  raising on one field, before and after attachment.
\<close>

definition attached_world :: "Widget World" where
  "attached_world =
     state_of (and_then (set_model Inspector_modelNameToViewName example_world)
                 (perform_update Inspector_viewNameToModelName))"

definition faulty_world :: "Widget World" where
  "faulty_world = example_world\<lparr>model := example_model\<lparr>raising := [''expand_pixels'']\<rparr>\<rparr>"

definition attached_faulty_world :: "Widget World" where
  "attached_faulty_world = attached_world\<lparr>model := (model attached_world)\<lparr>raising := [''expand_pixels'']\<rparr>\<rparr>"

section \<open>Auxiliary facts\<close>

lemma and_then_Done [simp]: "and_then (Done s) f = f s"
  by (simp add: and_then_def)

lemma and_then_Threw [simp]: "and_then (Threw e s) f = Threw e s"
  by (simp add: and_then_def)

lemma read_write_prop [simp]:
  "read_prop (write_prop k v w) k' = (if k' = k then v else read_prop w k')"
  by (simp add: read_prop_def write_prop_def update_conv')

lemma has_model_write_prop [simp]: "has_model (write_prop k v w) = has_model w"
  by (simp add: write_prop_def)

lemma read_prop_cong_view [simp]: "read_prop (w\<lparr>changedProperties := c\<rparr>) k = read_prop w k"
  by (simp add: read_prop_def)

lemma model_get_on [simp]: "model_get (model_on ev cb m) k = model_get m k"
  by (simp add: model_get_def model_on_def)

lemma raising_on [simp]: "raising (model_on ev cb m) = raising m"
  by (simp add: model_on_def)

lemma attributes_on [simp]: "attributes (model_on ev cb m) = attributes m"
  by (simp add: model_on_def)

lemma calls_on [simp]: "calls (model_on ev cb m) = calls m"
  by (simp add: model_on_def)

lemma inverse_entries_Nil [simp]: "inverse_entries [] = []"
  by (simp add: inverse_entries_def)

lemma inverse_entries_Cons [simp]:
  "inverse_entries ((k, w) # km) = (case w of None \<Rightarrow> [] | Some wk \<Rightarrow> [(wk, k)]) @ inverse_entries km"
  by (simp add: inverse_entries_def)

lemma set_model_loop_frame:
  "set_model_loop km s = Done s' \<Longrightarrow>
     (\<forall>k. model_get (model s') k = model_get (model s) k)
     \<and> (\<forall>wk. wk \<notin> fst ` set (inverse_entries km) \<longrightarrow> read_prop (view s') wk = read_prop (view s) wk)"
proof (induction km arbitrary: s)
  case Nil
  then show ?case by simp
next
  case (Cons a km)
  obtain k w where a: "a = (k, w)" by (cases a)
  show ?case
    using Cons.prems Cons.IH
    by (auto simp: a split: option.splits if_splits sum.splits)
qed

lemma set_model_loop_completes:
  "\<forall>k \<in> fst ` set km. k \<notin> set (raising (model s)) \<Longrightarrow> \<exists>s'. set_model_loop km s = Done s'"
proof (induction km arbitrary: s)
  case Nil
  then show ?case by simp
next
  case (Cons a km)
  obtain k w where a: "a = (k, w)" by (cases a)
  have get: "\<exists>v. model_get (model s) k = Inr v"
    using Cons.prems by (simp add: a model_get_def)
  show ?case
    using Cons.prems get Cons.IH
    by (auto simp: a split: option.splits)
qed

lemma set_model_loop_synced:
  "set_model_loop km s = Done s' \<Longrightarrow> distinct (map fst (inverse_entries km)) \<Longrightarrow>
     (k, Some wk) \<in> set km \<Longrightarrow> wk \<noteq> [] \<Longrightarrow>
     model_get (model s') k = Inr (read_prop (view s') wk)"
proof (induction km arbitrary: s)
  case Nil
  then show ?case by simp
next
  case (Cons a km)
  obtain k0 w0 where a: "a = (k0, w0)" by (cases a)
  show ?case
  proof (cases "(k, Some wk) = a")
    case True
    then have eq: "k0 = k" "w0 = Some wk" by (simp_all add: a)
    from Cons.prems(1) obtain v where v: "model_get (model s) k = Inr v"
      and rest: "set_model_loop km (s\<lparr>view := write_prop wk v (view s),
                      model := model_on (''change:'' @ k) (SyncProperty k wk) (model s)\<rparr>) = Done s'"
      using Cons.prems(4) by (auto simp: a eq split: sum.splits)
    from Cons.prems(2) have fresh: "wk \<notin> fst ` set (inverse_entries km)"
      by (simp add: a eq)
    from set_model_loop_frame[OF rest] fresh v show ?thesis by simp
  next
    case False
    with Cons.prems(3) have mem: "(k, Some wk) \<in> set km" by simp
    from Cons.prems(2) have d: "distinct (map fst (inverse_entries km))"
      by (simp add: a split: option.splits)
    from Cons.prems(1) obtain s1 where "set_model_loop km s1 = Done s'"
      by (auto simp: a split: option.splits if_splits sum.splits)
    from Cons.IH[OF this d mem Cons.prems(4)] show ?thesis .
  qed
qed

lemma set_model_loop_listeners:
  "set_model_loop km s = Done s' \<Longrightarrow>
     listeners (model s') = listeners (model s) @ subscriptions_of km
     \<and> raising (model s') = raising (model s)
     \<and> calls (model s') = calls (model s)
     \<and> has_model (view s') = has_model (view s)"
proof (induction km arbitrary: s)
  case Nil
  then show ?case by simp
next
  case (Cons a km)
  obtain k w where a: "a = (k, w)" by (cases a)
  show ?case
    using Cons.prems Cons.IH
    by (auto simp: a model_on_def split: option.splits if_splits sum.splits)
qed

lemma set_model_loop_append:
  "set_model_loop (pre @ post) s = and_then (set_model_loop pre s) (set_model_loop post)"
proof (induction pre arbitrary: s)
  case Nil
  then show ?case by simp
next
  case (Cons a pre)
  obtain k w where a: "a = (k, w)" by (cases a)
  show ?case
    using Cons.IH by (simp add: a split: option.splits sum.splits)
qed

lemma subscriptions_of_other:
  "k \<notin> fst ` set km \<Longrightarrow> filter (\<lambda>l. fst l = ''change:'' @ k) (subscriptions_of km) = []"
  by (induction km) (auto split: option.splits)

lemma subscriptions_of_one:
  "distinct (map fst km) \<Longrightarrow> (k, Some wk) \<in> set km \<Longrightarrow> wk \<noteq> [] \<Longrightarrow>
     map snd (filter (\<lambda>l. fst l = ''change:'' @ k) (subscriptions_of km)) = [SyncProperty k wk]"
proof (induction km)
  case Nil
  then show ?case by simp
next
  case (Cons a km)
  obtain k0 w0 where a: "a = (k0, w0)" by (cases a)
  show ?case
  proof (cases "k0 = k")
    case True
    with Cons.prems have w0: "w0 = Some wk" and fresh: "k \<notin> fst ` set km"
      by (auto simp: a rev_image_eqI)
    show ?thesis
      using Cons.prems(3) subscriptions_of_other[OF fresh] by (simp add: a True w0)
  next
    case False
    with Cons.prems Cons.IH show ?thesis
      by (auto simp: a split: option.splits)
  qed
qed

lemma updated_loop_calls:
  "has_model (view s) \<Longrightarrow>
   \<forall>p \<in> set batch. \<forall>f. map_of v2m p = Some f \<longrightarrow> f \<notin> set (raising (model s)) \<Longrightarrow>
   \<exists>s'. updated_loop v2m batch s = Done s'
      \<and> view s' = view s
      \<and> raising (model s') = raising (model s)
      \<and> listeners (model s') = listeners (model s)
      \<and> calls (model s') = calls (model s) @ staged_sets v2m (view s) batch"
proof (induction batch arbitrary: s)
  case Nil
  then show ?case by simp
next
  case (Cons p batch)
  show ?case
  proof (cases "map_of v2m p")
    case None
    with Cons.IH[of s] Cons.prems show ?thesis by simp
  next
    case (Some f)
    with Cons.prems have ok: "f \<notin> set (raising (model s))" by simp
    let ?m = "(model s)\<lparr>attributes := AList.update f (read_prop (view s) p) (attributes (model s)),
                 calls := calls (model s) @ [Set f (read_prop (view s) p)]\<rparr>"
    have step: "model_set f (read_prop (view s) p) (model s) = Inr ?m"
      using ok by (simp add: model_set_def)
    have "\<exists>s'. updated_loop v2m batch (s\<lparr>model := ?m\<rparr>) = Done s'
      \<and> view s' = view s
      \<and> raising (model s') = raising (model s)
      \<and> listeners (model s') = listeners (model s)
      \<and> calls (model s') = (calls (model s) @ [Set f (read_prop (view s) p)]) @ staged_sets v2m (view s) batch"
      using Cons.IH[of "s\<lparr>model := ?m\<rparr>"] Cons.prems by simp
    then show ?thesis
      using Some step Cons.prems(1) by auto
  qed
qed

lemma updated_loop_frame:
  "updated_loop v2m batch s = Done s' \<Longrightarrow> has_model (view s) \<Longrightarrow>
     raising (model s') = raising (model s) \<and> view s' = view s
     \<and> calls (model s') = calls (model s) @ staged_sets v2m (view s) batch"
proof (induction batch arbitrary: s)
  case Nil
  then show ?case by simp
next
  case (Cons p batch)
  show ?case
  proof (cases "map_of v2m p")
    case None
    with Cons.prems Cons.IH[of s] show ?thesis by simp
  next
    case (Some f)
    with Cons.prems obtain m where m: "model_set f (read_prop (view s) p) (model s) = Inr m"
      and rest: "updated_loop v2m batch (s\<lparr>model := m\<rparr>) = Done s'"
      by (auto split: sum.splits)
    from m have m': "raising m = raising (model s)"
      "calls m = calls (model s) @ [Set f (read_prop (view s) p)]"
      by (auto simp: model_set_def split: if_splits)
    from Cons.IH[OF rest] Cons.prems(2) m' Some show ?thesis by simp
  qed
qed

lemma updated_loop_append:
  "updated_loop v2m (pre @ post) s = and_then (updated_loop v2m pre s) (updated_loop v2m post)"
  by (induction pre arbitrary: s) (simp_all split: option.splits sum.splits)

lemma staged_sets_no_save: "count_list (staged_sets v2m w batch) SaveChanges = 0"
  by (induction batch) (auto split: option.splits)

lemma staged_sets_length:
  "length (staged_sets v2m w batch) = length (filter (\<lambda>p. map_of v2m p \<noteq> None) batch)"
  by (induction batch) (auto split: option.splits)

lemma Inspector_viewNameToModelName_eq:
  "Inspector_viewNameToModelName =
     [(''hideCloseButton'', ''hide_close_button''),
      (''expandPoints'', ''expand_points''),
      (''expandPixels'', ''expand_pixels''),
      (''expandObjects'', ''expand_objects''),
      (''pointInfo'', ''point_info''),
      (''pixelInfo'', ''pixel_info''),
      (''objectInfo'', ''object_info'')]"
  by (simp add: Inspector_viewNameToModelName_def reverseMap_def Inspector_modelNameToViewName_def)

lemma LayerEditor_viewNameToModelName_eq:
  "LayerEditor_viewNameToModelName =
     [(''title'', ''title''), (''type'', ''type''),
      (''bandNames'', ''band_names''), (''colormaps'', ''colormaps'')]"
  by (simp add: LayerEditor_viewNameToModelName_def reverseMap_def LayerEditor_modelNameToViewName_def)

lemmas eval_defs = set_model_def Inspector_modelNameToViewName_def example_world_def example_model_def Inspector_new_def model_get_def write_prop_def model_on_def read_prop_def notEqual_def
  model_set_def save_changes_def updated_def perform_update_def and_then_def remote_change_def callbacks_for_def Inspector_viewNameToModelName_eq

lemma attached_world_eq:
  "attached_world =
    \<lparr>model =
     \<lparr>attributes =
        [(''hide_close_button'', JBool True),
         (''expand_points'', JBool True), (''expand_pixels'', JBool False),
         (''expand_objects'', JBool False),
         (''point_info'',
          JObj [(''label'', JStr ''Point''), (''expanded'', JBool True)]),
         (''pixel_info'', JObj []), (''object_info'', JObj [])],
        listeners =
          [(''change:hide_close_button'',
            SyncProperty ''hide_close_button'' ''hideCloseButton''),
           (''change:expand_points'',
            SyncProperty ''expand_points'' ''expandPoints''),
           (''change:expand_pixels'',
            SyncProperty ''expand_pixels'' ''expandPixels''),
           (''change:expand_objects'',
            SyncProperty ''expand_objects'' ''expandObjects''),
           (''change:point_info'', SyncProperty ''point_info'' ''pointInfo''),
           (''change:pixel_info'', SyncProperty ''pixel_info'' ''pixelInfo''),
           (''change:object_info'',
            SyncProperty ''object_info'' ''objectInfo'')],
        calls = [Set ''hide_close_button'' (JBool True), Set ''expand_points'' (JBool True),
           Set ''expand_pixels'' (JBool False), Set ''expand_objects'' (JBool False),
           Set ''point_info'' (JObj [(''label'', JStr ''Point''), (''expanded'', JBool True)]),
           Set ''pixel_info'' (JObj []), Set ''object_info'' (JObj []), SaveChanges],
        raising = []\<rparr>,
     view =
       \<lparr>has_model = True,
          props =
            [(''hideCloseButton'', JBool True), (''expandPoints'', JBool True),
             (''expandPixels'', JBool False), (''expandObjects'', JBool False),
             (''pointInfo'',
              JObj [(''label'', JStr ''Point''), (''expanded'', JBool True)]),
             (''pixelInfo'', JObj []), (''objectInfo'', JObj [])],
          changedProperties = []\<rparr>\<rparr>"
  by (simp add: attached_world_def eval_defs state_of_def)

lemma get_prop_nonnull:
  "get_prop b k = Inr v \<Longrightarrow> \<exists>v'. get_prop b k' = Inr v'"
  by (cases b) simp_all

lemma LayerEditor_set_model_example:
  "LayerEditor_set_model LayerEditor_new_world =
     Done (example_layer_world\<lparr>view := (view example_layer_world)
             \<lparr>changedProperties := [''title'', ''type'', ''bandNames'', ''colormaps''],
              rasterEditor := None\<rparr>\<rparr>)"
  by (simp add: LayerEditor_set_model_def LayerEditor_new_world_def example_layer_world_def
        LayerEditor_modelNameToViewName_def registerCustomMessageHandlers_def set_model_def
        model_get_def write_prop_def read_prop_def notEqual_def model_on_def)

lemma and_then_deliver_Nil: "and_then r (deliver [] msg) = r"
  by (cases r) simp_all

lemma create_element_flag:
  "node (self (create_element n)) = Some n
   \<and> expanded (self (create_element n)) = (node_expanded n = Present True)"
  by (cases n)
     (auto simp: replace_node_def TreeNode_updated_def TreeNode_new_def split: OptFlag.splits)

lemma renderChildren_no_node: "node t = None \<Longrightarrow> renderChildren t = []"
  by (simp add: renderChildren_def)

lemma renderChildren_no_children:
  "node t = Some n \<Longrightarrow> children n = None \<Longrightarrow> renderChildren t = []"
  by (simp add: renderChildren_def)

lemma renderChildren_children:
  "node t = Some n \<Longrightarrow> children n = Some cs \<Longrightarrow>
     renderChildren t = (if expanded t \<and> cs \<noteq> [] then map create_element cs else [])"
  by (simp add: renderChildren_def hasChildren_def)

lemma renderChildren_collapsed: "\<not> expanded t \<Longrightarrow> renderChildren t = []"
  by (simp add: renderChildren_def)

lemma renderChildren_created: "c \<in> set (renderChildren t) \<Longrightarrow> \<exists>n. c = create_element n"
proof -
  assume c: "c \<in> set (renderChildren t)"
  show ?thesis
  proof (cases "node t")
    case None
    with c show ?thesis by (simp add: renderChildren_no_node)
  next
    case (Some n)
    show ?thesis
    proof (cases "children n")
      case None
      with c Some show ?thesis by (simp add: renderChildren_no_children)
    next
      case (Some cs)
      from renderChildren_children[OF \<open>node t = Some n\<close> Some] c
      have "c \<in> create_element ` set cs"
        by (cases "expanded t \<and> cs \<noteq> []") simp_all
      then show ?thesis by blast
    qed
  qed
qed

section \<open>The claims\<close>

text \<open>
  C1. A band-stats reply carries its payload under the key \<^verbatim>\<open>bandstats\<close>. With the raster
  editor rendered, the handler assigns the reply's \<^verbatim>\<open>min\<close> and \<^verbatim>\<open>max\<close> to
  \<^verbatim>\<open>minValue\<close> and \<^verbatim>\<open>maxValue\<close> when the stretch embedded in the reply is the
  editor's stretch at that moment, and changes nothing else; when the embedded stretch is
  anything else, the state after the handler is the state before it.
\<close>

theorem bandstats_applied_iff_stretch_matches:
  assumes "rasterEditor (view s) = Some re"
    and "map_of kvs ''bandstats'' = Some b"
  shows "(get_prop b ''stretch'' = Inr (JStr (stretch re)) \<longrightarrow>
            (\<exists>mn mx. get_prop b ''min'' = Inr mn \<and> get_prop b ''max'' = Inr mx
               \<and> handleBandstatsResponse (JObj kvs) s =
                   Done (s\<lparr>view := (view s)\<lparr>rasterEditor :=
                           Some (re\<lparr>minValue := mn, maxValue := mx\<rparr>)\<rparr>\<rparr>)))
       \<and> (get_prop b ''stretch'' \<noteq> Inr (JStr (stretch re)) \<longrightarrow>
            state_of (handleBandstatsResponse (JObj kvs) s) = s)"
proof (intro conjI impI)
  assume m: "get_prop b ''stretch'' = Inr (JStr (stretch re))"
  from get_prop_nonnull[OF m] obtain mn where mn: "get_prop b ''min'' = Inr mn" by blast
  from get_prop_nonnull[OF m] obtain mx where mx: "get_prop b ''max'' = Inr mx" by blast
  show "\<exists>mn mx. get_prop b ''min'' = Inr mn \<and> get_prop b ''max'' = Inr mx
               \<and> handleBandstatsResponse (JObj kvs) s =
                   Done (s\<lparr>view := (view s)\<lparr>rasterEditor :=
                           Some (re\<lparr>minValue := mn, maxValue := mx\<rparr>)\<rparr>\<rparr>)"
    using assms m mn mx by (simp add: handleBandstatsResponse_def)
next
  assume "get_prop b ''stretch'' \<noteq> Inr (JStr (stretch re))"
  then show "state_of (handleBandstatsResponse (JObj kvs) s) = s"
    using assms by (auto simp: handleBandstatsResponse_def state_of_def split: sum.splits)
qed

theorem bandstats_applied_iff_stretch_matches_witness:
  "handleBandstatsResponse
      (JObj [(''bandstats'', JObj [(''stretch'', JStr ''sigma-1''), (''min'', JNum 0), (''max'', JNum 255)])])
      example_layer_world
     = Done (example_layer_world\<lparr>view := (view example_layer_world)\<lparr>rasterEditor :=
          Some \<lparr>selectedBands = [''B1''], stretch = ''sigma-1'',
                 minValue = JNum 0, maxValue = JNum 255,
                 paletteEditor = Some \<lparr>palette = JArr []\<rparr>\<rparr>\<rparr>\<rparr>)
   \<and> state_of (handleBandstatsResponse
      (JObj [(''bandstats'', JObj [(''stretch'', JStr ''sigma-2''), (''min'', JNum 10), (''max'', JNum 200)])])
      example_layer_world) = example_layer_world"
proof -
  let ?re = "\<lparr>selectedBands = [''B1''], stretch = ''sigma-1'',
                 minValue = JUndefined, maxValue = JUndefined,
                 paletteEditor = Some \<lparr>palette = JArr []\<rparr>\<rparr>"
  have h1: "rasterEditor (view example_layer_world) = Some ?re"
    by (simp add: example_layer_world_def)
  have h2: "map_of [(''bandstats'', JObj [(''stretch'', JStr ''sigma-1''), (''min'', JNum 0), (''max'', JNum 255)])] ''bandstats''
              = Some (JObj [(''stretch'', JStr ''sigma-1''), (''min'', JNum 0), (''max'', JNum 255)])"
    by simp
  have h3: "map_of [(''bandstats'', JObj [(''stretch'', JStr ''sigma-2''), (''min'', JNum 10), (''max'', JNum 200)])] ''bandstats''
              = Some (JObj [(''stretch'', JStr ''sigma-2''), (''min'', JNum 10), (''max'', JNum 200)])"
    by simp
  show ?thesis
    using bandstats_applied_iff_stretch_matches[OF h1 h2] bandstats_applied_iff_stretch_matches[OF h1 h3]
    by simp
qed

text \<open>
  C2, as stated, fails. In the attached example inspector a remote change of
  \<^verbatim>\<open>expand_points\<close> to \<^verbatim>\<open>false\<close> updates \<^verbatim>\<open>expandPoints\<close>, and the update cycle that
  follows issues \<^verbatim>\<open>set("expand_points", false)\<close> and \<^verbatim>\<open>save_changes()\<close>.
\<close>

theorem remote_write_echo_counterexample:
  "read_prop (view (state_of (remote_change ''expand_points'' (JBool False) attached_world))) ''expandPoints'' = JBool False
   \<and> new_calls attached_world
        (state_of (remote_change_cycle Inspector_viewNameToModelName ''expand_points'' (JBool False) attached_world))
      = [Set ''expand_points'' (JBool False), SaveChanges]"
  by (simp add: attached_world_eq remote_change_cycle_def new_calls_def state_of_def eval_defs)

text \<open>
  C2, amended. No write is marked as coming from the model. For a mapped field \<open>F\<close> with
  local property \<open>P\<close>: when a remote change of \<open>F\<close> to \<open>v\<close> makes the subscription callback
  write into \<open>P\<close> a value that differs from the one held, \<open>P\<close> enters the pending batch, and
  the update cycle that follows issues exactly \<^verbatim>\<open>set(F, v)\<close>, with the value just read from
  the model, and then \<^verbatim>\<open>save_changes()\<close>; the model's value of \<open>F\<close> is still \<open>v\<close>.
\<close>

theorem remote_write_is_echoed:
  assumes "has_model (view s)"
    and "changedProperties (view s) = []"
    and "callbacks_for (''change:'' @ F) (model s) = [SyncProperty F P]"
    and "map_of v2m P = Some F"
    and "F \<notin> set (raising (model s))"
    and "notEqual v (read_prop (view s) P)"
  shows "\<exists>s1 s2. remote_change F v s = Done s1
           \<and> read_prop (view s1) P = v
           \<and> changedProperties (view s1) = [P]
           \<and> perform_update v2m s1 = Done s2
           \<and> calls (model s2) = calls (model s) @ [Set F v, SaveChanges]
           \<and> model_get (model s2) F = Inr v"
proof -
  let ?m1 = "(model s)\<lparr>attributes := AList.update F v (attributes (model s))\<rparr>"
  let ?s1 = "s\<lparr>model := ?m1, view := write_prop P v (view s)\<rparr>"
  have get: "model_get ?m1 F = Inr v"
    using assms(5) by (simp add: model_get_def update_conv')
  have cb: "callbacks_for (''change:'' @ F) ?m1 = [SyncProperty F P]"
    using assms(3) by (simp add: callbacks_for_def)
  have r: "remote_change F v s = Done ?s1"
    using assms(3) get by (simp add: remote_change_def callbacks_for_def and_then_def)
  have batch: "changedProperties (view ?s1) = [P]"
    using assms(2,6) by (simp add: write_prop_def)
  have u: "perform_update v2m ?s1 =
             Done (?s1\<lparr>view := (view ?s1)\<lparr>changedProperties := []\<rparr>,
                      model := save_changes (?m1\<lparr>attributes := AList.update F v (attributes ?m1),
                                                calls := calls ?m1 @ [Set F v]\<rparr>)\<rparr>)"
    using assms(1,4,5) batch
    by (simp add: perform_update_def updated_def and_then_def model_set_def)
  show ?thesis
    using r u batch assms(5)
    by (simp add: save_changes_def model_get_def update_conv')
qed

theorem remote_write_is_echoed_witness:
  "\<exists>s1 s2. remote_change ''expand_points'' (JBool False) attached_world = Done s1
           \<and> read_prop (view s1) ''expandPoints'' = JBool False
           \<and> changedProperties (view s1) = [''expandPoints'']
           \<and> perform_update Inspector_viewNameToModelName s1 = Done s2
           \<and> calls (model s2) = calls (model attached_world) @ [Set ''expand_points'' (JBool False), SaveChanges]
           \<and> model_get (model s2) ''expand_points'' = Inr (JBool False)"
proof -
  have h1: "has_model (view attached_world)"
    and h2: "changedProperties (view attached_world) = []"
    and h3: "callbacks_for (''change:'' @ ''expand_points'') (model attached_world)
               = [SyncProperty ''expand_points'' ''expandPoints'']"
    and h5: "''expand_points'' \<notin> set (raising (model attached_world))"
    and h6: "notEqual (JBool False) (read_prop (view attached_world) ''expandPoints'')"
    by (simp_all add: attached_world_eq callbacks_for_def notEqual_def read_prop_def)
  have h4: "map_of Inspector_viewNameToModelName ''expandPoints'' = Some ''expand_points''"
    by (simp add: Inspector_viewNameToModelName_eq)
  show ?thesis
    using remote_write_is_echoed[OF h1 h2 h3 h4 h5 h6] by simp
qed

text \<open>
  C3. Attaching a view to a model on which no mapped field raises completes, and right
  after it every local property of the key map holds what \<^verbatim>\<open>get\<close> returns for its remote
  field. The local property names of the map are distinct (its inverse is a map); entries
  whose local property is \<^verbatim>\<open>null\<close> (or the empty string, which \<^verbatim>\<open>if (widgetKey)\<close> skips
  as well) have no local mirror.
\<close>

theorem initial_sync:
  assumes "\<forall>k \<in> fst ` set km. k \<notin> set (raising (model s))"
    and "reverseMap km \<noteq> None"
  shows "\<exists>s'. set_model km s = Done s'
           \<and> (\<forall>(k, w) \<in> set km. \<forall>wk. w = Some wk \<and> wk \<noteq> [] \<longrightarrow>
                 model_get (model s') k = Inr (read_prop (view s') wk))"
proof -
  let ?s0 = "s\<lparr>view := (view s)\<lparr>has_model := True\<rparr>\<rparr>"
  from assms(1) have "\<forall>k \<in> fst ` set km. k \<notin> set (raising (model ?s0))" by simp
  from set_model_loop_completes[OF this] obtain s' where s': "set_model_loop km ?s0 = Done s'" ..
  from assms(2) have d: "distinct (map fst (inverse_entries km))"
    by (simp add: reverseMap_def split: if_splits)
  have "\<forall>(k, w) \<in> set km. \<forall>wk. w = Some wk \<and> wk \<noteq> [] \<longrightarrow>
          model_get (model s') k = Inr (read_prop (view s') wk)"
    using set_model_loop_synced[OF s' d] by auto
  with s' show ?thesis by (simp add: set_model_def)
qed

theorem initial_sync_witness:
  "\<exists>s'. set_model Inspector_modelNameToViewName example_world = Done s'
      \<and> model_get (model s') ''point_info'' = Inr (read_prop (view s') ''pointInfo'')
      \<and> read_prop (view s') ''pointInfo'' = JObj [(''label'', JStr ''Point''), (''expanded'', JBool True)]
      \<and> read_prop (view s') ''hideCloseButton'' = JBool True"
proof -
  have h1: "\<forall>k \<in> fst ` set Inspector_modelNameToViewName. k \<notin> set (raising (model example_world))"
    by (simp add: example_world_def example_model_def)
  have h2: "reverseMap Inspector_modelNameToViewName \<noteq> None"
    by (simp add: reverseMap_def Inspector_modelNameToViewName_def)
  from initial_sync[OF h1 h2] obtain s' where
    s': "set_model Inspector_modelNameToViewName example_world = Done s'"
    and sync: "\<forall>(k, w) \<in> set Inspector_modelNameToViewName. \<forall>wk. w = Some wk \<and> wk \<noteq> [] \<longrightarrow>
                 model_get (model s') k = Inr (read_prop (view s') wk)"
    by blast
  have m: "model_get (model s') ''point_info'' = Inr (read_prop (view s') ''pointInfo'')"
    and m2: "model_get (model s') ''hide_close_button'' = Inr (read_prop (view s') ''hideCloseButton'')"
    using sync by (simp_all add: Inspector_modelNameToViewName_def)
  have g: "\<forall>k. model_get (model s') k = model_get (model example_world) k"
    using set_model_loop_frame s' by (fastforce simp: set_model_def)
  have "read_prop (view s') ''pointInfo'' = JObj [(''label'', JStr ''Point''), (''expanded'', JBool True)]"
    "read_prop (view s') ''hideCloseButton'' = JBool True"
    using m m2 g by (simp_all add: model_get_def example_world_def example_model_def)
  with s' m show ?thesis by simp
qed

text \<open>
  C4. With the model attached and no staged field raising, \<^verbatim>\<open>updated\<close> completes; the
  calls it issues are one \<^verbatim>\<open>set\<close> for each property of the batch that the inverse key map
  knows, in batch order, followed by \<^verbatim>\<open>save_changes\<close>, which occurs once among them
  however many properties the batch has.
\<close>

theorem one_flush_per_batch:
  assumes "has_model (view s)"
    and "\<forall>p \<in> set batch. \<forall>f. map_of v2m p = Some f \<longrightarrow> f \<notin> set (raising (model s))"
  shows "\<exists>s'. updated v2m batch s = Done s'
           \<and> calls (model s') = calls (model s) @ staged_sets v2m (view s) batch @ [SaveChanges]
           \<and> length (staged_sets v2m (view s) batch)
                = length (filter (\<lambda>p. map_of v2m p \<noteq> None) batch)
           \<and> count_list (drop (length (calls (model s))) (calls (model s'))) SaveChanges = 1"
proof -
  from updated_loop_calls[OF assms] obtain s1 where
    s1: "updated_loop v2m batch s = Done s1" "view s1 = view s"
    and c: "calls (model s1) = calls (model s) @ staged_sets v2m (view s) batch"
    by blast
  show ?thesis
    using s1 c assms(1) staged_sets_no_save[of v2m "view s" batch]
      staged_sets_length[of v2m "view s" batch]
    by (simp add: updated_def and_then_def save_changes_def)
qed

theorem one_flush_per_batch_witness:
  "\<exists>s'. updated Inspector_viewNameToModelName [''expandPoints'', ''expandPixels''] attached_world = Done s'
      \<and> calls (model s') = calls (model attached_world)
            @ [Set ''expand_points'' (JBool True), Set ''expand_pixels'' (JBool False), SaveChanges]
      \<and> count_list (drop (length (calls (model attached_world))) (calls (model s'))) SaveChanges = 1"
proof -
  have h1: "has_model (view attached_world)"
    by (simp add: attached_world_eq)
  have h2: "\<forall>p \<in> set [''expandPoints'', ''expandPixels''].
              \<forall>f. map_of Inspector_viewNameToModelName p = Some f \<longrightarrow>
                f \<notin> set (raising (model attached_world))"
    by (simp add: attached_world_eq)
  have st: "staged_sets Inspector_viewNameToModelName (view attached_world) [''expandPoints'', ''expandPixels'']
              = [Set ''expand_points'' (JBool True), Set ''expand_pixels'' (JBool False)]"
    by (simp add: attached_world_eq Inspector_viewNameToModelName_eq read_prop_def)
  from one_flush_per_batch[OF h1 h2, unfolded st] obtain s' where
    a: "updated Inspector_viewNameToModelName [''expandPoints'', ''expandPixels''] attached_world = Done s'"
    and b: "calls (model s') = calls (model attached_world)
              @ [Set ''expand_points'' (JBool True), Set ''expand_pixels'' (JBool False)] @ [SaveChanges]"
    and c: "count_list (drop (length (calls (model attached_world))) (calls (model s'))) SaveChanges = 1"
    by blast
  from a b c show ?thesis by simp
qed

text \<open>
  C5, as stated, fails. After two attachments of the example inspector to its model the
  event \<^verbatim>\<open>change:expand_points\<close> has two listeners.
\<close>

theorem double_attach_counterexample:
  "callbacks_for ''change:expand_points''
     (model (state_of (attach_twice Inspector_modelNameToViewName example_world)))
   = [SyncProperty ''expand_points'' ''expandPoints'', SyncProperty ''expand_points'' ''expandPoints'']"
  by (simp add: attach_twice_def state_of_def eval_defs)

text \<open>
  C5, amended. \<^verbatim>\<open>set model\<close> neither rejects a second attachment nor removes the
  listeners of the first. On a model that had no listener for the field, one attachment
  leaves one subscription for each mapped remote field with a local property, and a second
  attachment leaves two: a remote change of the field runs both callbacks. Both write the
  value read from the model into the same local property, which then holds that value.
\<close>

theorem double_attach_doubles_subscriptions:
  assumes "\<forall>k \<in> fst ` set km. k \<notin> set (raising (model s))"
    and "distinct (map fst km)"
    and "(k, Some wk) \<in> set km" and "wk \<noteq> []"
    and "callbacks_for (''change:'' @ k) (model s) = []"
  shows "\<exists>s1 s2 s3. set_model km s = Done s1
           \<and> callbacks_for (''change:'' @ k) (model s1) = [SyncProperty k wk]
           \<and> set_model km s1 = Done s2
           \<and> callbacks_for (''change:'' @ k) (model s2) = [SyncProperty k wk, SyncProperty k wk]
           \<and> remote_change k v s2 = Done s3
           \<and> read_prop (view s3) wk = v"
proof -
  let ?s0 = "s\<lparr>view := (view s)\<lparr>has_model := True\<rparr>\<rparr>"
  from assms(1) have "\<forall>k \<in> fst ` set km. k \<notin> set (raising (model ?s0))" by simp
  from set_model_loop_completes[OF this] obtain s1 where s1: "set_model_loop km ?s0 = Done s1" ..
  note f1 = set_model_loop_listeners[OF s1]
  let ?s1 = "s1\<lparr>view := (view s1)\<lparr>has_model := True\<rparr>\<rparr>"
  from assms(1) f1 have "\<forall>k \<in> fst ` set km. k \<notin> set (raising (model ?s1))" by simp
  from set_model_loop_completes[OF this] obtain s2 where s2: "set_model_loop km ?s1 = Done s2" ..
  note f2 = set_model_loop_listeners[OF s2]
  note one = subscriptions_of_one[OF assms(2,3,4)]
  have c1: "callbacks_for (''change:'' @ k) (model s1) = [SyncProperty k wk]"
    using f1 assms(5) one by (simp add: callbacks_for_def)
  have c2: "callbacks_for (''change:'' @ k) (model s2) = [SyncProperty k wk, SyncProperty k wk]"
    using f2 c1 one by (simp add: callbacks_for_def)
  have ok: "k \<notin> set (raising (model s2))"
    using assms(1,3) f1 f2 by (auto simp: rev_image_eqI)
  let ?m = "(model s2)\<lparr>attributes := AList.update k v (attributes (model s2))\<rparr>"
  have get: "\<And>w. model_get ?m k = Inr v"
    using ok by (simp add: model_get_def update_conv')
  have "remote_change k v s2 =
          Done (s2\<lparr>model := ?m, view := write_prop wk v (write_prop wk v (view s2))\<rparr>)"
    using c2 get by (simp add: remote_change_def callbacks_for_def and_then_def)
  then show ?thesis
    using s1 s2 c1 c2 by (simp add: set_model_def)
qed

theorem double_attach_doubles_subscriptions_witness:
  "\<exists>s1 s2 s3. set_model Inspector_modelNameToViewName example_world = Done s1
           \<and> callbacks_for ''change:point_info'' (model s1) = [SyncProperty ''point_info'' ''pointInfo'']
           \<and> set_model Inspector_modelNameToViewName s1 = Done s2
           \<and> callbacks_for ''change:point_info'' (model s2)
               = [SyncProperty ''point_info'' ''pointInfo'', SyncProperty ''point_info'' ''pointInfo'']
           \<and> remote_change ''point_info'' (JObj []) s2 = Done s3
           \<and> read_prop (view s3) ''pointInfo'' = JObj []"
proof -
  have h1: "\<forall>k \<in> fst ` set Inspector_modelNameToViewName. k \<notin> set (raising (model example_world))"
    by (simp add: example_world_def example_model_def)
  have h2: "distinct (map fst Inspector_modelNameToViewName)"
    and h3: "(''point_info'', Some ''pointInfo'') \<in> set Inspector_modelNameToViewName"
    by (simp_all add: Inspector_modelNameToViewName_def)
  have h4: "''pointInfo'' \<noteq> []" by simp
  have h5: "callbacks_for (''change:'' @ ''point_info'') (model example_world) = []"
    by (simp add: callbacks_for_def example_world_def example_model_def)
  show ?thesis
    using double_attach_doubles_subscriptions[OF h1 h2 h3 h4 h5, of "JObj []"] by simp
qed

text \<open>
  C6, as stated, fails. A message that is not an object has neither key, and the listener
  does not ignore it: on \<^verbatim>\<open>null\<close> and on a string the test \<^verbatim>\<open>"bandstats" in msg\<close> throws a
  TypeError (the state is the one before).
\<close>

theorem dispatch_non_object_counterexample:
  "on_custom_message JNull example_layer_world = Threw TypeError example_layer_world
   \<and> on_custom_message (JStr ''ready'') example_layer_world = Threw TypeError example_layer_world
   \<and> \<not> completed (custom_message (JStr ''ready'') example_layer_world)"
  by (simp add: on_custom_message_def custom_message_def callbacks_for_def example_layer_world_def
        completed_def)

text \<open>
  C6, amended. On a message that is an object the listener looks for the key
  \<^verbatim>\<open>bandstats\<close> first and hands the message to the band-stats handler when it is present,
  whatever else the message holds; otherwise it looks for the key \<^verbatim>\<open>palette\<close> and hands the
  message to the palette handler; a message object with neither key, and an array, is
  ignored: the listener completes and the state is the one before. A message object the
  host delivers to an editor with that one listener is handled so.
\<close>

theorem dispatch_by_key_presence:
  "on_custom_message (JObj kvs) s =
     (if ''bandstats'' \<in> fst ` set kvs then handleBandstatsResponse (JObj kvs) s
      else if ''palette'' \<in> fst ` set kvs then handlePaletteResponse (JObj kvs) s
      else Done s)
   \<and> on_custom_message (JArr xs) s = Done s
   \<and> (callbacks_for ''msg:custom'' (model s) = [OnCustomMessage] \<longrightarrow>
        custom_message (JObj kvs) s = on_custom_message (JObj kvs) s)"
  by (simp add: on_custom_message_def custom_message_def and_then_deliver_Nil)

theorem dispatch_by_key_presence_witness:
  "custom_message
     (JObj [(''palette'', JObj [(''palette'', JArr [JStr ''#000000''])]),
            (''bandstats'', JObj [(''stretch'', JStr ''sigma-1''), (''min'', JNum 0), (''max'', JNum 255)])])
     example_layer_world
   = handleBandstatsResponse
     (JObj [(''palette'', JObj [(''palette'', JArr [JStr ''#000000''])]),
            (''bandstats'', JObj [(''stretch'', JStr ''sigma-1''), (''min'', JNum 0), (''max'', JNum 255)])])
     example_layer_world
   \<and> custom_message (JObj [(''palette'', JObj [(''palette'', JArr [JStr ''#000000''])])]) example_layer_world
     = handlePaletteResponse (JObj [(''palette'', JObj [(''palette'', JArr [JStr ''#000000''])])]) example_layer_world
   \<and> custom_message (JObj [(''assets'', JArr [])]) example_layer_world = Done example_layer_world"
proof -
  have h: "callbacks_for ''msg:custom'' (model example_layer_world) = [OnCustomMessage]"
    by (simp add: callbacks_for_def example_layer_world_def)
  show ?thesis
    using dispatch_by_key_presence
            [of "[(''palette'', JObj [(''palette'', JArr [JStr ''#000000''])]),
                  (''bandstats'', JObj [(''stretch'', JStr ''sigma-1''), (''min'', JNum 0), (''max'', JNum 255)])]"
                example_layer_world]
          dispatch_by_key_presence
            [of "[(''palette'', JObj [(''palette'', JArr [JStr ''#000000''])])]" example_layer_world]
          dispatch_by_key_presence [of "[(''assets'', JArr [])]" example_layer_world]
          h
    by simp
qed

text \<open>
  C7, as stated, fails. With \<^verbatim>\<open>get\<close> raising on \<^verbatim>\<open>expand_pixels\<close>, attaching the example
  inspector throws; the fields after it are neither subscribed nor synced
  (\<^verbatim>\<open>pointInfo\<close> keeps its initial value). With \<^verbatim>\<open>set\<close> raising on it, \<^verbatim>\<open>updated\<close> on
  the batch of \<^verbatim>\<open>expandPixels\<close> and \<^verbatim>\<open>expandObjects\<close> throws and issues no call at all.
\<close>

theorem raising_field_counterexample:
  "\<not> completed (set_model Inspector_modelNameToViewName faulty_world)
   \<and> callbacks_for ''change:expand_objects''
        (model (state_of (set_model Inspector_modelNameToViewName faulty_world))) = []
   \<and> read_prop (view (state_of (set_model Inspector_modelNameToViewName faulty_world))) ''pointInfo'' = JObj []
   \<and> model_get (model faulty_world) ''point_info''
        = Inr (JObj [(''label'', JStr ''Point''), (''expanded'', JBool True)])
   \<and> updated Inspector_viewNameToModelName [''expandPixels'', ''expandObjects''] attached_faulty_world
        = Threw (HostError ''expand_pixels'') attached_faulty_world"
  by (simp add: faulty_world_def attached_faulty_world_def attached_world_eq completed_def state_of_def eval_defs)

text \<open>
  C7, amended. Nothing catches an error of \<^verbatim>\<open>get\<close> or \<^verbatim>\<open>set\<close>. When \<^verbatim>\<open>get\<close> raises
  on a field during attachment, \<^verbatim>\<open>set model\<close> throws that error in the state reached by
  the entries before it: they are synced and subscribed, the raising field and the entries
  after it are not. When \<^verbatim>\<open>set\<close> raises on the field of a batch property, \<^verbatim>\<open>updated\<close>
  throws that error in the state reached by the properties before it: their \<^verbatim>\<open>set\<close> calls
  were issued, none for the properties after it, and no \<^verbatim>\<open>save_changes\<close>.
\<close>

theorem raising_field_aborts_batch:
  "(set_model pre s = Done s1 \<and> wk \<noteq> [] \<and> k \<in> set (raising (model s))
      \<longrightarrow> set_model (pre @ (k, Some wk) # post) s = Threw (HostError k) s1
          \<and> listeners (model s1) = listeners (model s) @ subscriptions_of pre)
   \<and> (updated_loop v2m bpre s = Done s2 \<and> has_model (view s)
        \<and> map_of v2m p = Some f \<and> f \<in> set (raising (model s))
      \<longrightarrow> updated v2m (bpre @ p # bpost) s = Threw (HostError f) s2
          \<and> calls (model s2) = calls (model s) @ staged_sets v2m (view s) bpre)"
proof (intro conjI impI)
  assume a: "set_model pre s = Done s1 \<and> wk \<noteq> [] \<and> k \<in> set (raising (model s))"
  then have loop: "set_model_loop pre (s\<lparr>view := (view s)\<lparr>has_model := True\<rparr>\<rparr>) = Done s1"
    by (simp add: set_model_def)
  from set_model_loop_listeners[OF loop]
  have r: "raising (model s1) = raising (model s)"
    and l: "listeners (model s1) = listeners (model s) @ subscriptions_of pre"
    by simp_all
  from a loop r show "set_model (pre @ (k, Some wk) # post) s = Threw (HostError k) s1"
    by (simp add: set_model_def set_model_loop_append model_get_def)
  from l show "listeners (model s1) = listeners (model s) @ subscriptions_of pre" .
next
  assume b: "updated_loop v2m bpre s = Done s2 \<and> has_model (view s)
      \<and> map_of v2m p = Some f \<and> f \<in> set (raising (model s))"
  then have f: "raising (model s2) = raising (model s)" "view s2 = view s"
    "calls (model s2) = calls (model s) @ staged_sets v2m (view s) bpre"
    using updated_loop_frame[of v2m bpre s s2] by simp_all
  from b f show "updated v2m (bpre @ p # bpost) s = Threw (HostError f) s2"
    by (simp add: updated_def updated_loop_append model_set_def)
  from f show "calls (model s2) = calls (model s) @ staged_sets v2m (view s) bpre" by simp
qed

theorem raising_field_aborts_batch_witness:
  "(\<exists>s1. set_model [(''hide_close_button'', Some ''hideCloseButton''), (''expand_points'', Some ''expandPoints'')]
            faulty_world = Done s1
        \<and> set_model Inspector_modelNameToViewName faulty_world = Threw (HostError ''expand_pixels'') s1
        \<and> listeners (model s1) =
            [(''change:hide_close_button'', SyncProperty ''hide_close_button'' ''hideCloseButton''),
             (''change:expand_points'', SyncProperty ''expand_points'' ''expandPoints'')])
   \<and> updated Inspector_viewNameToModelName [''expandPoints'', ''expandPixels'', ''expandObjects''] attached_faulty_world
       = Threw (HostError ''expand_pixels'')
           (attached_faulty_world\<lparr>model := (model attached_faulty_world)
              \<lparr>calls := calls (model attached_faulty_world) @ [Set ''expand_points'' (JBool True)]\<rparr>\<rparr>)"
proof -
  let ?pre = "[(''hide_close_button'', Some ''hideCloseButton''), (''expand_points'', Some ''expandPoints'')]"
  let ?post = "[(''expand_objects'', Some ''expandObjects''), (''point_info'', Some ''pointInfo''),
                (''pixel_info'', Some ''pixelInfo''), (''object_info'', Some ''objectInfo'')]"
  let ?s2 = "attached_faulty_world\<lparr>model := (model attached_faulty_world)
              \<lparr>calls := calls (model attached_faulty_world) @ [Set ''expand_points'' (JBool True)]\<rparr>\<rparr>"
  have km: "Inspector_modelNameToViewName = ?pre @ (''expand_pixels'', Some ''expandPixels'') # ?post"
    by (simp add: Inspector_modelNameToViewName_def)
  have ex: "\<exists>s1. set_model ?pre faulty_world = Done s1"
    by (simp add: faulty_world_def eval_defs)
  then obtain s1 where s1: "set_model ?pre faulty_world = Done s1" ..
  have r: "''expand_pixels'' \<in> set (raising (model faulty_world))"
    by (simp add: faulty_world_def)
  have l0: "listeners (model faulty_world) = []"
    by (simp add: faulty_world_def example_model_def)
  have b1: "updated_loop Inspector_viewNameToModelName [''expandPoints''] attached_faulty_world = Done ?s2"
    by (simp add: attached_faulty_world_def attached_world_eq eval_defs)
  have b2: "has_model (view attached_faulty_world)"
    and b4: "''expand_pixels'' \<in> set (raising (model attached_faulty_world))"
    by (simp_all add: attached_faulty_world_def attached_world_eq)
  have b3: "map_of Inspector_viewNameToModelName ''expandPixels'' = Some ''expand_pixels''"
    by (simp add: Inspector_viewNameToModelName_eq)
  have part1: "set_model Inspector_modelNameToViewName faulty_world = Threw (HostError ''expand_pixels'') s1
      \<and> listeners (model s1) =
            [(''change:hide_close_button'', SyncProperty ''hide_close_button'' ''hideCloseButton''),
             (''change:expand_points'', SyncProperty ''expand_points'' ''expandPoints'')]"
    using raising_field_aborts_batch
      [of ?pre faulty_world s1 "''expandPixels''" "''expand_pixels''" ?post]
      s1 r l0 by (simp add: km)
  have part2: "updated Inspector_viewNameToModelName [''expandPoints'', ''expandPixels'', ''expandObjects''] attached_faulty_world
       = Threw (HostError ''expand_pixels'') ?s2"
    using raising_field_aborts_batch
      [of "[]" attached_faulty_world attached_faulty_world "''x''" "''y''" "[]"
          Inspector_viewNameToModelName "[''expandPoints'']" ?s2 "''expandPixels''" "''expand_pixels''" "[''expandObjects'']"]
      b1 b2 b3 b4 by simp
  from s1 part1 part2 show ?thesis by blast
qed

text \<open>
  C8, as stated, fails. In the inspected point the child \<^verbatim>\<open>lat\<close> is opened by a click;
  a click on the top node then removes the child element, and a second click on the top
  node renders a new child element, which is collapsed: the child's expanded flag did not
  stay as it was.
\<close>

theorem toggle_resets_children_counterexample:
  "length (rendered (click_child 0 (create_element point_data))) = 1
   \<and> expanded (self (hd (rendered (click_child 0 (create_element point_data)))))
   \<and> rendered (click_node (click_child 0 (create_element point_data))) = []
   \<and> length (rendered (click_node (click_node (click_child 0 (create_element point_data))))) = 1
   \<and> \<not> expanded (self (hd (rendered (click_node (click_node (click_child 0 (create_element point_data)))))))"
  by (simp add: point_data_def click_child_def click_node_def toggleExpand_def renderChildren_def
        hasChildren_def replace_node_def TreeNode_updated_def TreeNode_new_def)

text \<open>
  C8, amended. Toggling a node twice gives back the component as it was; one toggle flips
  the expanded flag of that component and writes nothing else: its backing data, with the
  children data and their \<^verbatim>\<open>expanded\<close> keys, is as before. The child components are not
  kept: a collapsed node has no child elements, and after two clicks on a node its child
  elements are the ones rendered anew from the data, each with the flag its data sets
  (expanded only for an explicit \<^verbatim>\<open>expanded: true\<close>). Replacing the backing data of a
  component by a new node whose data sets \<^verbatim>\<open>expanded: true\<close> leaves the component expanded.
\<close>

theorem toggle_twice_and_explicit_expanded:
  "toggleExpand (toggleExpand t) = t
   \<and> expanded (toggleExpand t) = (\<not> expanded t)
   \<and> node (toggleExpand t) = node t
   \<and> self (click_node (click_node el)) = self el
   \<and> rendered (click_node (click_node el)) = renderChildren (self el)
   \<and> (\<forall>c \<in> set (rendered (click_node (click_node el))).
         \<exists>n. node (self c) = Some n \<and> expanded (self c) = (node_expanded n = Present True))
   \<and> (\<not> expanded (toggleExpand t) \<longrightarrow> renderChildren (toggleExpand t) = [])
   \<and> (node_expanded new = Present True \<longrightarrow> expanded (replace_node new t))"
proof -
  have twice: "toggleExpand (toggleExpand t) = t" for t
    by (simp add: toggleExpand_def)
  have r: "rendered (click_node (click_node el)) = renderChildren (self el)"
    by (simp add: click_node_def twice)
  have "\<exists>n. node (self c) = Some n \<and> expanded (self c) = (node_expanded n = Present True)"
    if "c \<in> set (renderChildren (self el))" for c
    using renderChildren_created[OF that] create_element_flag by blast
  moreover have "renderChildren (toggleExpand t) = []" if "\<not> expanded (toggleExpand t)"
    using that by (rule renderChildren_collapsed)
  ultimately show ?thesis
    using r by (simp add: click_node_def twice toggleExpand_def replace_node_def TreeNode_updated_def)
qed

theorem toggle_twice_and_explicit_expanded_witness:
  "self (click_node (click_node (click_child 0 (create_element point_data))))
     = self (click_child 0 (create_element point_data))
   \<and> rendered (click_node (click_node (click_child 0 (create_element point_data))))
       = [TreeEl \<lparr>node = Some (Node (Some ''lat'') (Some [Node (Some ''37.4'') None Absent None]) Absent None),
                  expanded = False\<rparr> []]
   \<and> node_expanded point_data = Present True
   \<and> expanded (replace_node point_data TreeNode_new)
   \<and> toggleExpand (toggleExpand TreeNode_new) = TreeNode_new"
  using toggle_twice_and_explicit_expanded
          [of TreeNode_new "click_child 0 (create_element point_data)" point_data]
  by (simp add: point_data_def click_child_def renderChildren_def
        hasChildren_def replace_node_def TreeNode_updated_def TreeNode_new_def)

text \<open>
  C9. Every message that the widgets send is an object \<^verbatim>\<open>{type, id}\<close> or
  \<^verbatim>\<open>{type, id, detail}\<close> with strings for \<^verbatim>\<open>type\<close> and \<^verbatim>\<open>id\<close>: the close command, the
  band-stats command and the palette command each send one such message to an attached
  model. The \<^verbatim>\<open>detail\<close> of the band-stats command holds the raster editor's selected bands
  and stretch as they are when the command is sent.
\<close>

theorem commands_have_shape_and_context:
  assumes "has_model (view s)"
  shows "(\<exists>msg. calls (model (onCloseButtonClicked s)) = calls (model s) @ [Send msg] \<and> command_shape msg)
       \<and> (\<exists>msg. calls (model (calculateBandStats s)) = calls (model s) @ [Send msg] \<and> command_shape msg
             \<and> (\<forall>re. rasterEditor (view s) = Some re \<longrightarrow>
                   get_prop msg ''detail'' =
                     Inr (JObj [(''bands'', JArr (map JStr (selectedBands re))),
                                (''stretch'', JStr (stretch re))])))
       \<and> (\<forall>s'. onPaletteChanged d s = Done s' \<longrightarrow>
             (\<exists>msg. calls (model s') = calls (model s) @ [Send msg] \<and> command_shape msg))
       \<and> (\<forall>e s'. onPaletteChanged d s = Threw e s' \<longrightarrow> s' = s)"
  using assms
  by (auto simp: onCloseButtonClicked_def calculateBandStats_def onPaletteChanged_def model_send_def
           split: sum.splits)

theorem commands_have_shape_and_context_witness:
  "calls (model (calculateBandStats example_layer_world)) =
     [Send (JObj [(''type'', JStr ''calculate''), (''id'', JStr ''band-stats''),
                  (''detail'', JObj [(''bands'', JArr [JStr ''B1'']), (''stretch'', JStr ''sigma-1'')])])]
   \<and> command_shape (JObj [(''type'', JStr ''calculate''), (''id'', JStr ''band-stats''),
                  (''detail'', JObj [(''bands'', JArr [JStr ''B1'']), (''stretch'', JStr ''sigma-1'')])])
   \<and> calls (model (onCloseButtonClicked example_layer_world)) =
       [Send (JObj [(''type'', JStr ''click''), (''id'', JStr ''close'')])]
   \<and> command_shape (JObj [(''type'', JStr ''click''), (''id'', JStr ''close'')])"
proof -
  have h: "has_model (view example_layer_world)"
    by (simp add: example_layer_world_def)
  have c: "calls (model example_layer_world) = []"
    by (simp add: example_layer_world_def)
  show ?thesis
    using commands_have_shape_and_context[OF h, of JNull] c
    by (simp add: calculateBandStats_def onCloseButtonClicked_def model_send_def example_layer_world_def)
qed

text \<open>
  C10. When the backing data of a component is replaced by a node that has no
  \<^verbatim>\<open>expanded\<close> key, the component keeps its expanded flag; a node that carries the key
  sets the flag to the key's value (\<^verbatim>\<open>false\<close> for a null value). So only a replacement
  that carries the key overwrites the flag.
\<close>

theorem replace_without_expanded_key_keeps_flag:
  "expanded (replace_node new t) =
     (case node_expanded new of
        Absent \<Rightarrow> expanded t
      | Nullish \<Rightarrow> False
      | Present b \<Rightarrow> b)"
  by (simp add: replace_node_def TreeNode_updated_def split: OptFlag.splits)

theorem replace_without_expanded_key_keeps_flag_witness:
  "expanded (replace_node (Node (Some ''pixel'') (Some []) Absent None)
      (toggleExpand \<lparr>node = Some (Node (Some ''point'') None Absent (Some True)), expanded = False\<rparr>))
   \<and> \<not> expanded (replace_node (Node (Some ''pixel'') (Some []) (Present False) None)
      (toggleExpand \<lparr>node = Some (Node (Some ''point'') None Absent (Some True)), expanded = False\<rparr>))"
  using replace_without_expanded_key_keeps_flag
    [of "Node (Some ''pixel'') (Some []) Absent None"
        "toggleExpand \<lparr>node = Some (Node (Some ''point'') None Absent (Some True)), expanded = False\<rparr>"]
    replace_without_expanded_key_keeps_flag
    [of "Node (Some ''pixel'') (Some []) (Present False) None"
        "toggleExpand \<lparr>node = Some (Node (Some ''point'') None Absent (Some True)), expanded = False\<rparr>"]
  by (simp add: toggleExpand_def)

end
